theory Spec2Isabelle
  imports Main "HOL-Library.Word"
begin

section \<open>A simple TFTP client: the embedding of main.py\<close>

text \<open>
  The client of \<^verbatim>\<open>main.py\<close> talks to a server over a UDP socket and reads or writes one
  local file. Everything it does to the outside is kept, in order, in a trace of effects;
  what the outside does to it is a list of events that the socket will meet and the state
  of the one local path the transfer names.

  Conventions of the model:
  \<^item> \<^verbatim>\<open>bytes\<close> are lists of 8-bit words;
  \<^item> a Python \<^verbatim>\<open>str\<close> is a \<open>string\<close> whose characters are the code points
    U+0000 to U+00FF, so that \<^verbatim>\<open>len\<close> counts characters while \<^verbatim>\<open>encode()\<close> (UTF-8)
    gives two bytes for every character above U+007F; code points beyond U+00FF are outside
    the model;
  \<^item> Python integers that only count upwards from 0 are \<open>nat\<close>, without any bound;
  \<^item> an exception that no handler of the program catches is a value \<open>Some e\<close> next to the
    world as it was when the exception was raised;
  \<^item> \<^verbatim>\<open>sendto\<close> always succeeds, and \<^verbatim>\<open>recvfrom\<close> either returns a datagram or raises
    \<^verbatim>\<open>socket.timeout\<close>; a datagram longer than the buffer is cut to the buffer's size.
\<close>

type_synonym byte = "8 word"
type_synonym bytes = "byte list"

subsection \<open>Constants\<close>

text \<open>The dictionary \<^verbatim>\<open>OPCODES\<close>, one constant for each key.\<close>

definition RRQ :: nat where "RRQ = 1"
definition WRQ :: nat where "WRQ = 2"
definition DATA :: nat where "DATA = 3"
definition ACK :: nat where "ACK = 4"
definition ERROR :: nat where "ERROR = 5"

definition BUFFER_SIZE :: nat where "BUFFER_SIZE = 516"

subsection \<open>The world\<close>

text \<open>Exceptions that leave a handler: \<^verbatim>\<open>struct.error\<close> and \<^verbatim>\<open>OSError\<close> (from \<^verbatim>\<open>open\<close>).\<close>

datatype exn = StructError | OSError

text \<open>
  What \<^verbatim>\<open>recvfrom\<close> meets: a datagram, or nothing within the timeout. An empty list of
  events means that nothing arrives any more.
\<close>

datatype event = Datagram bytes | Silence

text \<open>
  The local path that \<^verbatim>\<open>filename\<close> names: nothing there, a regular file with its content,
  or a directory (which exists, and which \<^verbatim>\<open>open\<close> refuses in both modes).
\<close>

datatype path_entry = Absent | Regular bytes | Directory

text \<open>The lines the program prints, one constructor for each \<^verbatim>\<open>print\<close> after the prompts.\<close>

datatype message =
    InitiatingGet string      \<comment> \<open>Initiating GET request for '...' from ...\<close>
  | InitiatingPut string      \<comment> \<open>Initiating PUT request for '...' to ...\<close>
  | InvalidOperation          \<comment> \<open>Error: Invalid operation. Use 'get' or 'put'.\<close>
  | FileDoesNotExist string   \<comment> \<open>Error: File '...' does not exist.\<close>
  | InvalidAck                \<comment> \<open>Error: Invalid ACK received.\<close>
  | TimeoutAck                \<comment> \<open>Error: Timeout waiting for ACK.\<close>
  | UploadSuccessful          \<comment> \<open>Upload successful.\<close>
  | InvalidData               \<comment> \<open>Error: Invalid DATA packet received.\<close>
  | TimeoutData               \<comment> \<open>Error: Timeout waiting for data.\<close>
  | DownloadSuccessful        \<comment> \<open>Download successful.\<close>

datatype effect =
    Print message
  | Sendto bytes              \<comment> \<open>a datagram handed to \<^verbatim>\<open>sock.sendto\<close>\<close>
  | Recvfrom "bytes option"   \<comment> \<open>what \<^verbatim>\<open>sock.recvfrom\<close> returned; \<open>None\<close> is \<^verbatim>\<open>socket.timeout\<close>\<close>
  | OpenFile                  \<comment> \<open>\<^verbatim>\<open>open(filename, ...)\<close> succeeded\<close>
  | Write bytes               \<comment> \<open>one call of \<^verbatim>\<open>file.write\<close>\<close>
  | CloseFile                 \<comment> \<open>leaving the \<^verbatim>\<open>with\<close> block\<close>
  | CloseSock                 \<comment> \<open>\<^verbatim>\<open>sock.close()\<close>\<close>

record world =
  inbox :: "event list"
  local_file :: path_entry
  trace :: "effect list"

definition emit :: "effect \<Rightarrow> world \<Rightarrow> world" where
  "emit e w = w\<lparr>trace := trace w @ [e]\<rparr>"

definition print :: "message \<Rightarrow> world \<Rightarrow> world" where
  "print m w = emit (Print m) w"

definition sendto :: "bytes \<Rightarrow> world \<Rightarrow> world" where
  "sendto packet w = emit (Sendto packet) w"

definition recvfrom :: "nat \<Rightarrow> world \<Rightarrow> bytes option \<times> world" where
  "recvfrom bufsize w =
     (case inbox w of
        [] \<Rightarrow> (None, emit (Recvfrom None) w)
      | Silence # rest \<Rightarrow> (None, emit (Recvfrom None) (w\<lparr>inbox := rest\<rparr>))
      | Datagram d # rest \<Rightarrow>
          (Some (take bufsize d), emit (Recvfrom (Some (take bufsize d))) (w\<lparr>inbox := rest\<rparr>)))"

definition file_write :: "bytes \<Rightarrow> world \<Rightarrow> world" where
  "file_write data w =
     emit (Write data)
       (w\<lparr>local_file := (case local_file w of Regular c \<Rightarrow> Regular (c @ data) | e \<Rightarrow> e)\<rparr>)"

definition close_sock :: "world \<Rightarrow> world" where
  "close_sock w = emit CloseSock w"

subsection \<open>The struct module\<close>

text \<open>The format \<^verbatim>\<open>!H\<close>: two bytes, big-endian, of a number that must be below 65536.\<close>

definition be16 :: "nat \<Rightarrow> bytes" where
  "be16 n = [of_nat (n div 256), of_nat (n mod 256)]"

definition pack_H :: "nat \<Rightarrow> exn + bytes" where
  "pack_H n = (if n < 65536 then Inr (be16 n) else Inl StructError)"

definition pack_HH :: "nat \<Rightarrow> nat \<Rightarrow> exn + bytes" where
  "pack_HH a b = (if a < 65536 \<and> b < 65536 then Inr (be16 a @ be16 b) else Inl StructError)"

text \<open>The format \<^verbatim>\<open>Ns\<close>: exactly N bytes, the argument cut or padded with NUL bytes.\<close>

definition pack_s :: "nat \<Rightarrow> bytes \<Rightarrow> bytes" where
  "pack_s n bs = take n bs @ replicate (n - length bs) 0"

text \<open>\<^verbatim>\<open>struct.unpack("!HH", buf)\<close> wants a buffer of exactly four bytes.\<close>

definition unpack_HH :: "bytes \<Rightarrow> exn + (nat \<times> nat)" where
  "unpack_HH buf =
     (case buf of
        [a, b, c, d] \<Rightarrow> Inr (256 * unat a + unat b, 256 * unat c + unat d)
      | _ \<Rightarrow> Inl StructError)"

text \<open>\<^verbatim>\<open>str.encode()\<close>: UTF-8 of the code points below U+0100.\<close>

definition encode_char :: "char \<Rightarrow> bytes" where
  "encode_char c =
     (let n = (of_char c :: nat)
      in if n < 128 then [of_nat n] else [of_nat (192 + n div 64), of_nat (128 + n mod 64)])"

definition encode :: "string \<Rightarrow> bytes" where
  "encode s = concat (map encode_char s)"

subsection \<open>The packets the client builds\<close>

definition build_request :: "nat \<Rightarrow> string \<Rightarrow> string \<Rightarrow> exn + bytes" where
  "build_request opcode filename mode =
     (case pack_H opcode of
        Inl e \<Rightarrow> Inl e
      | Inr op \<Rightarrow>
          Inr (op @ pack_s (length filename + 1) (encode filename)
                  @ pack_s (length mode + 1) (encode mode)))"

definition send_ack :: "nat \<Rightarrow> world \<Rightarrow> exn + world" where
  "send_ack block_number w =
     (case pack_HH ACK block_number of
        Inl e \<Rightarrow> Inl e
      | Inr ack_packet \<Rightarrow> Inr (sendto ack_packet w))"

subsection \<open>Upload\<close>

text \<open>
  The \<^verbatim>\<open>while True\<close> loop of \<^verbatim>\<open>handle_put\<close>. Its state is the block number, the part of
  the file that has not been read yet, and the world. The loop goes round again only after
  a full chunk of 512 bytes, so the unread part gets shorter.
\<close>

function put_loop :: "nat \<Rightarrow> bytes \<Rightarrow> world \<Rightarrow> exn option \<times> world" where
  "put_loop block_number file w =
     (case pack_HH DATA (block_number + 1) of
        Inl e \<Rightarrow> (Some e, w)
      | Inr header \<Rightarrow>
          (case recvfrom BUFFER_SIZE (sendto (header @ take 512 file) w) of
             (None, w') \<Rightarrow> (None, print TimeoutAck w')
           | (Some response, w') \<Rightarrow>
               (case unpack_HH (take 4 response) of
                  Inl e \<Rightarrow> (Some e, w')
                | Inr (opcode, ack_block) \<Rightarrow>
                    if opcode \<noteq> ACK \<or> ack_block \<noteq> block_number + 1
                    then (None, print InvalidAck w')
                    else if length (take 512 file) < 512
                    then (None, print UploadSuccessful w')
                    else put_loop (block_number + 1) (drop 512 file) w')))"
  by pat_completeness auto
termination
  by (relation "measure (\<lambda>(b, file, w). length file)") auto

definition handle_put :: "string \<Rightarrow> world \<Rightarrow> exn option \<times> world" where
  "handle_put filename w =
     (case local_file w of
        Absent \<Rightarrow> (None, print (FileDoesNotExist filename) w)
      | Directory \<Rightarrow> (Some OSError, w)
      | Regular content \<Rightarrow>
          (case put_loop 0 content (emit OpenFile w) of
             (r, w') \<Rightarrow> (r, emit CloseFile w')))"

subsection \<open>Download\<close>

text \<open>
  The \<^verbatim>\<open>while True\<close> loop of \<^verbatim>\<open>handle_get\<close>. Its state is the block number and the world.
  Every round takes one event from the socket, and the loop stops when none is left.
\<close>

function get_loop :: "nat \<Rightarrow> world \<Rightarrow> exn option \<times> world" where
  "get_loop block_number w =
     (case recvfrom BUFFER_SIZE w of
        (None, w') \<Rightarrow> (None, print TimeoutData w')
      | (Some response, w') \<Rightarrow>
          (case unpack_HH (take 4 response) of
             Inl e \<Rightarrow> (Some e, w')
           | Inr (opcode, received_block) \<Rightarrow>
               if opcode \<noteq> DATA \<or> received_block \<noteq> block_number + 1
               then (None, print InvalidData w')
               else (case send_ack received_block (file_write (drop 4 response) w') of
                       Inl e \<Rightarrow> (Some e, file_write (drop 4 response) w')
                     | Inr w'' \<Rightarrow>
                         if length (drop 4 response) < 512
                         then (None, print DownloadSuccessful w'')
                         else get_loop received_block w'')))"
  by pat_completeness auto
termination
proof (relation "measure (\<lambda>(b, w). length (inbox w))", goal_cases)
  case 1
  show ?case by simp
next
  case 2
  then show ?case
    by (auto simp: recvfrom_def send_ack_def sendto_def emit_def file_write_def
        split: sum.splits if_splits list.splits event.splits)
qed

definition handle_get :: "string \<Rightarrow> world \<Rightarrow> exn option \<times> world" where
  "handle_get filename w =
     (case local_file w of
        Directory \<Rightarrow> (Some OSError, w)
      | _ \<Rightarrow>
          (case get_loop 0 (emit OpenFile (w\<lparr>local_file := Regular []\<rparr>)) of
             (r, w') \<Rightarrow> (r, emit CloseFile w')))"

subsection \<open>The session\<close>

text \<open>
  \<^verbatim>\<open>main\<close> from the point where the prompts have been answered and the socket exists:
  \<open>operation\<close> and \<open>filename\<close> are the answers, already stripped (and the operation in
  lower case). The \<^verbatim>\<open>finally\<close> clause closes the socket however the \<^verbatim>\<open>try\<close> block ends.
\<close>

definition main :: "string \<Rightarrow> string \<Rightarrow> world \<Rightarrow> exn option \<times> world" where
  "main operation filename w =
     (case (if operation = ''get'' then
              (case build_request RRQ filename ''octet'' of
                 Inl e \<Rightarrow> (Some e, print (InitiatingGet filename) w)
               | Inr request_packet \<Rightarrow>
                   handle_get filename (sendto request_packet (print (InitiatingGet filename) w)))
            else if operation = ''put'' then
              (case build_request WRQ filename ''octet'' of
                 Inl e \<Rightarrow> (Some e, print (InitiatingPut filename) w)
               | Inr request_packet \<Rightarrow>
                   handle_put filename (sendto request_packet (print (InitiatingPut filename) w)))
            else (None, print InvalidOperation w))
      of (r, w') \<Rightarrow> (r, close_sock w'))"

subsection \<open>Reading a trace\<close>

fun sent_of :: "effect list \<Rightarrow> bytes list" where
  "sent_of [] = []"
| "sent_of (Sendto p # t) = p # sent_of t"
| "sent_of (e # t) = sent_of t"

fun printed_of :: "effect list \<Rightarrow> message list" where
  "printed_of [] = []"
| "printed_of (Print m # t) = m # printed_of t"
| "printed_of (e # t) = printed_of t"

fun writes_of :: "effect list \<Rightarrow> bytes list" where
  "writes_of [] = []"
| "writes_of (Write d # t) = d # writes_of t"
| "writes_of (e # t) = writes_of t"

subsection \<open>Scenarios: what the server does\<close>

text \<open>
  The properties below speak of servers that answer in sequence for a while. These
  definitions describe such answers and the effects of the rounds they cause; they are
  not part of the program.
\<close>

text \<open>Replies that acknowledge the blocks after block \<open>b\<close>, one after the other.\<close>

fun acks_from :: "nat \<Rightarrow> bytes list \<Rightarrow> bool" where
  "acks_from b [] = True"
| "acks_from b (r # rs) = (unpack_HH (take 4 r) = Inr (ACK, b + 1) \<and> acks_from (b + 1) rs)"

text \<open>The effects of the upload rounds that these replies answer.\<close>

fun put_rounds :: "nat \<Rightarrow> bytes \<Rightarrow> bytes list \<Rightarrow> effect list" where
  "put_rounds b file [] = []"
| "put_rounds b file (r # rs) =
     Sendto (be16 DATA @ be16 (b + 1) @ take 512 file) # Recvfrom (Some (take 516 r))
       # put_rounds (b + 1) (drop 512 file) rs"

text \<open>
  Datagrams that carry the blocks after block \<open>b\<close>, one after the other, each with a
  payload of at least 512 bytes (of which the client reads 512).
\<close>

fun full_blocks_from :: "nat \<Rightarrow> bytes list \<Rightarrow> bool" where
  "full_blocks_from b [] = True"
| "full_blocks_from b (d # ds) =
     (516 \<le> length d \<and> unpack_HH (take 4 d) = Inr (DATA, b + 1) \<and> full_blocks_from (b + 1) ds)"

definition payload :: "bytes \<Rightarrow> bytes" where
  "payload d = drop 4 (take 516 d)"

text \<open>The effects of the download rounds that these datagrams cause.\<close>

fun get_rounds :: "nat \<Rightarrow> bytes list \<Rightarrow> effect list" where
  "get_rounds b [] = []"
| "get_rounds b (d # ds) =
     Recvfrom (Some (take 516 d)) # Write (payload d) # Sendto (be16 ACK @ be16 (b + 1))
       # get_rounds (b + 1) ds"

text \<open>Nothing arrives within the timeout.\<close>

fun quiet :: "event list \<Rightarrow> bool" where
  "quiet [] = True"
| "quiet (Silence # es) = True"
| "quiet (Datagram d # es) = False"

text \<open>
  The next event ends a download that has reached block \<open>b\<close> without success: nothing
  arrives, or a datagram of fewer than four bytes, or one that is not DATA block \<open>b + 1\<close>.
\<close>

fun rejected :: "nat \<Rightarrow> event list \<Rightarrow> bool" where
  "rejected b [] = True"
| "rejected b (Silence # es) = True"
| "rejected b (Datagram d # es) =
     (case unpack_HH (take 4 d) of
        Inl e \<Rightarrow> True
      | Inr (opcode, block) \<Rightarrow> opcode \<noteq> DATA \<or> block \<noteq> b + 1)"

text \<open>A server's DATA packet with 512 zero bytes, and its ACK packet.\<close>

definition full_block :: "nat \<Rightarrow> bytes" where
  "full_block i = be16 DATA @ be16 i @ replicate 512 0"

definition ack_reply :: "nat \<Rightarrow> bytes" where
  "ack_reply i = be16 ACK @ be16 i"

text \<open>
  Packets that carry the given opcode and the block numbers after \<open>b\<close>, one after the
  other, none of them beyond 65535.
\<close>

fun numbered :: "nat \<Rightarrow> nat \<Rightarrow> bytes list \<Rightarrow> bool" where
  "numbered opcode b [] = True"
| "numbered opcode b (p # ps) =
     (b < 65535 \<and> take 4 p = be16 opcode @ be16 (b + 1) \<and> numbered opcode (b + 1) ps)"

text \<open>The effects of the round that ends a download without success.\<close>

fun rejection :: "event list \<Rightarrow> effect list" where
  "rejection [] = [Recvfrom None, Print TimeoutData]"
| "rejection (Silence # es) = [Recvfrom None, Print TimeoutData]"
| "rejection (Datagram d # es) =
     (if length d < 4 then [Recvfrom (Some (take 516 d))]
      else [Recvfrom (Some (take 516 d)), Print InvalidData])"

subsection \<open>The decoder of the specification\<close>

text \<open>
  Modelled from the spec: the packet decoder. The source reads the opcode and the block
  of an inbound datagram with \<^verbatim>\<open>struct.unpack\<close> and never decodes a request, so the
  decoder that recovers a request is taken from the wire format of the specification:
  the first two bytes are the opcode; a request is \<open>filename 0x00 mode 0x00\<close>, DATA is
  a block and a payload, ACK is a block, ERROR is a code and \<open>message 0x00\<close>.
\<close>

datatype packet =
    Request nat string string
  | Data nat bytes
  | Ack nat
  | Error nat string

datatype decode_error = Truncated | UnknownOpcode

definition u16 :: "bytes \<Rightarrow> nat" where
  "u16 buf = 256 * unat (buf ! 0) + unat (buf ! 1)"

definition ascii_string :: "bytes \<Rightarrow> string" where
  "ascii_string bs = map (\<lambda>b. char_of (unat b)) bs"

definition spec_decode :: "bytes \<Rightarrow> decode_error + packet" where
  "spec_decode buf =
     (if length buf < 2 then Inl Truncated
      else let opcode = u16 buf in
        if opcode = RRQ \<or> opcode = WRQ then
          (let body = drop 2 buf;
               name = takeWhile (\<lambda>b. b \<noteq> 0) body;
               rest = drop (length name + 1) body;
               mode = takeWhile (\<lambda>b. b \<noteq> 0) rest
           in if length body \<le> length name \<or> length rest \<le> length mode then Inl Truncated
              else Inr (Request opcode (ascii_string name) (ascii_string mode)))
        else if opcode = DATA then
          (if length buf < 4 then Inl Truncated
           else Inr (Data (u16 (drop 2 buf)) (drop 4 buf)))
        else if opcode = ACK then
          (if length buf < 4 then Inl Truncated else Inr (Ack (u16 (drop 2 buf))))
        else if opcode = ERROR then
          (if length buf < 4 then Inl Truncated
           else Inr (Error (u16 (drop 2 buf))
                       (ascii_string (takeWhile (\<lambda>b. b \<noteq> 0) (drop 4 buf)))))
        else Inl UnknownOpcode)"

subsection \<open>Valid request fields\<close>

text \<open>A filename or mode of ASCII characters without a NUL.\<close>

definition valid_field :: "string \<Rightarrow> bool" where
  "valid_field s = (\<forall>c\<in>set s. 0 < (of_char c :: nat) \<and> (of_char c :: nat) < 128)"

section \<open>Lemmas\<close>

declare put_loop.simps [simp del] get_loop.simps [simp del]

subsection \<open>Headers and packets\<close>

lemma unpack_HH_wrong_length: "length buf \<noteq> 4 \<Longrightarrow> unpack_HH buf = Inl StructError"
  by (auto simp: unpack_HH_def split: list.splits)

lemma unpack_HH_short: "length buf < 4 \<Longrightarrow> unpack_HH (take 4 buf) = Inl StructError"
  by (rule unpack_HH_wrong_length) simp

lemma unpack_HH_long:
  "4 \<le> length buf \<Longrightarrow>
   unpack_HH (take 4 buf) =
     Inr (256 * unat (buf ! 0) + unat (buf ! 1), 256 * unat (buf ! 2) + unat (buf ! 3))"
  apply (cases buf; simp add: unpack_HH_def)
  subgoal for a b1
    apply (cases b1; simp)
    subgoal for b b2
      apply (cases b2; simp)
      subgoal for c b3
        by (cases b3; simp)
      done
    done
  done

lemma unpack_HH_length: "unpack_HH p = Inr x \<Longrightarrow> length p = 4"
  using unpack_HH_wrong_length [of p] by auto

lemma be16_unat:
  "n < 65536 \<Longrightarrow>
   256 * unat (of_nat (n div 256) :: byte) + unat (of_nat (n mod 256) :: byte) = n"
  by (simp add: unat_of_nat take_bit_eq_mod)

lemma unpack_be16: "a < 65536 \<Longrightarrow> b < 65536 \<Longrightarrow> unpack_HH (be16 a @ be16 b) = Inr (a, b)"
  by (simp add: unpack_HH_def be16_def be16_unat)

lemma unpack_HH_bound: "unpack_HH p = Inr (a, b) \<Longrightarrow> a < 65536 \<and> b < 65536"
proof -
  have byte: "unat x < 256" for x :: byte
    using unsigned_less [of x, where ?'a = nat] by simp
  assume u: "unpack_HH p = Inr (a, b)"
  then obtain x y z u where "p = [x, y, z, u]"
    by (auto simp: unpack_HH_def split: list.splits)
  with u have "a = 256 * unat x + unat y" "b = 256 * unat z + unat u"
    by (simp_all add: unpack_HH_def)
  then show ?thesis
    using byte [of x] byte [of y] byte [of z] byte [of u] by simp
qed

lemma length_be16 [simp]: "length (be16 n) = 2"
  by (simp add: be16_def)

lemma pack_HH_ok: "a < 65536 \<Longrightarrow> b < 65536 \<Longrightarrow> pack_HH a b = Inr (be16 a @ be16 b)"
  by (simp add: pack_HH_def)

lemma payload_packet: "payload (be16 a @ be16 b @ p) = take 512 p"
  by (simp add: payload_def)

lemma build_request_ok:
  "opcode < 65536 \<Longrightarrow>
   build_request opcode filename mode =
     Inr (be16 opcode @ pack_s (length filename + 1) (encode filename)
            @ pack_s (length mode + 1) (encode mode))"
  by (simp add: build_request_def pack_H_def)

subsection \<open>Receiving\<close>

lemma recvfrom_Datagram:
  "inbox w = Datagram d # rest \<Longrightarrow>
   recvfrom n w =
     (Some (take n d), w\<lparr>inbox := rest, trace := trace w @ [Recvfrom (Some (take n d))]\<rparr>)"
  by (simp add: recvfrom_def emit_def)

lemma recvfrom_quiet:
  "quiet (inbox w) \<Longrightarrow>
   recvfrom n w = (None, w\<lparr>inbox := tl (inbox w), trace := trace w @ [Recvfrom None]\<rparr>)"
  by (cases "inbox w" rule: quiet.cases) (simp_all add: recvfrom_def emit_def)

subsection \<open>One round of the upload loop\<close>

lemma put_loop_overflow: "65535 \<le> b \<Longrightarrow> put_loop b f w = (Some StructError, w)"
  by (simp add: put_loop.simps [of b _ w] pack_HH_def)

lemma put_loop_step_ack:
  assumes "b < 65535" and "inbox w = Datagram r # rest"
    and "unpack_HH (take 4 r) = Inr (ACK, b + 1)"
  shows "put_loop b f w =
    (if length f < 512
     then (None, w\<lparr>inbox := rest,
                    trace := trace w @ [Sendto (be16 DATA @ be16 (b + 1) @ take 512 f),
                                        Recvfrom (Some (take 516 r)), Print UploadSuccessful]\<rparr>)
     else put_loop (b + 1) (drop 512 f)
            (w\<lparr>inbox := rest,
               trace := trace w @ [Sendto (be16 DATA @ be16 (b + 1) @ take 512 f),
                                   Recvfrom (Some (take 516 r))]\<rparr>))"
  using assms
  by (simp add: put_loop.simps [of b _ w] pack_HH_ok DATA_def recvfrom_Datagram sendto_def
      emit_def print_def BUFFER_SIZE_def min_def)

lemma put_loop_step_invalid:
  assumes "b < 65535" and "inbox w = Datagram r # rest"
    and "unpack_HH (take 4 r) = Inr (opcode, block)" and "opcode \<noteq> ACK \<or> block \<noteq> b + 1"
  shows "put_loop b f w =
     (None, w\<lparr>inbox := rest,
               trace := trace w @ [Sendto (be16 DATA @ be16 (b + 1) @ take 512 f),
                                   Recvfrom (Some (take 516 r)), Print InvalidAck]\<rparr>)"
  using assms
  by (auto simp add: put_loop.simps [of b _ w] pack_HH_ok DATA_def recvfrom_Datagram sendto_def
      emit_def print_def BUFFER_SIZE_def)

lemma put_loop_step_short:
  assumes "b < 65535" and "inbox w = Datagram r # rest" and "length r < 4"
  shows "put_loop b f w =
     (Some StructError,
      w\<lparr>inbox := rest,
         trace := trace w @ [Sendto (be16 DATA @ be16 (b + 1) @ take 512 f),
                             Recvfrom (Some (take 516 r))]\<rparr>)"
  using assms unpack_HH_short [of r]
  by (simp add: put_loop.simps [of b _ w] pack_HH_ok DATA_def recvfrom_Datagram sendto_def
      emit_def print_def BUFFER_SIZE_def)

lemma put_loop_step_quiet:
  assumes "b < 65535" and "quiet (inbox w)"
  shows "put_loop b f w =
     (None, w\<lparr>inbox := tl (inbox w),
               trace := trace w @ [Sendto (be16 DATA @ be16 (b + 1) @ take 512 f),
                                   Recvfrom None, Print TimeoutAck]\<rparr>)"
  using assms
  by (simp add: put_loop.simps [of b _ w] pack_HH_ok DATA_def recvfrom_quiet sendto_def
      emit_def print_def BUFFER_SIZE_def)

subsection \<open>One round of the download loop\<close>

lemma get_loop_step_data_any:
  assumes "inbox w = Datagram d # rest" and "unpack_HH (take 4 d) = Inr (DATA, b + 1)"
  shows "get_loop b w =
    (if length (payload d) < 512
     then (None, w\<lparr>inbox := rest,
                    local_file := (case local_file w of Regular c \<Rightarrow> Regular (c @ payload d)
                                   | e \<Rightarrow> e),
                    trace := trace w @ [Recvfrom (Some (take 516 d)), Write (payload d),
                                        Sendto (be16 ACK @ be16 (b + 1)),
                                        Print DownloadSuccessful]\<rparr>)
     else get_loop (b + 1)
            (w\<lparr>inbox := rest,
               local_file := (case local_file w of Regular c \<Rightarrow> Regular (c @ payload d)
                              | e \<Rightarrow> e),
               trace := trace w @ [Recvfrom (Some (take 516 d)), Write (payload d),
                                   Sendto (be16 ACK @ be16 (b + 1))]\<rparr>))"
proof -
  from assms(2) have "b + 1 < 65536"
    by (auto dest: unpack_HH_bound)
  then have "pack_HH ACK (Suc b) = Inr (be16 ACK @ be16 (Suc b))"
    by (simp add: pack_HH_ok ACK_def)
  with assms show ?thesis
    by (cases "local_file w")
      (simp_all add: get_loop.simps [of b w] recvfrom_Datagram BUFFER_SIZE_def send_ack_def
        sendto_def file_write_def emit_def print_def payload_def)
qed

lemma get_loop_step_data:
  assumes "inbox w = Datagram d # rest" and "unpack_HH (take 4 d) = Inr (DATA, b + 1)"
    and "local_file w = Regular c"
  shows "get_loop b w =
    (if length (payload d) < 512
     then (None, w\<lparr>inbox := rest, local_file := Regular (c @ payload d),
                    trace := trace w @ [Recvfrom (Some (take 516 d)), Write (payload d),
                                        Sendto (be16 ACK @ be16 (b + 1)),
                                        Print DownloadSuccessful]\<rparr>)
     else get_loop (b + 1)
            (w\<lparr>inbox := rest, local_file := Regular (c @ payload d),
               trace := trace w @ [Recvfrom (Some (take 516 d)), Write (payload d),
                                   Sendto (be16 ACK @ be16 (b + 1))]\<rparr>))"
proof -
  from assms(2) have "b + 1 < 65536"
    by (auto dest: unpack_HH_bound)
  then have "pack_HH ACK (Suc b) = Inr (be16 ACK @ be16 (Suc b))"
    by (simp add: pack_HH_ok ACK_def)
  with assms show ?thesis
    by (simp add: get_loop.simps [of b w] recvfrom_Datagram BUFFER_SIZE_def send_ack_def
        sendto_def file_write_def emit_def print_def payload_def)
qed

lemma get_loop_step_invalid:
  assumes "inbox w = Datagram d # rest" and "unpack_HH (take 4 d) = Inr (opcode, block)"
    and "opcode \<noteq> DATA \<or> block \<noteq> b + 1"
  shows "get_loop b w =
    (None, w\<lparr>inbox := rest,
              trace := trace w @ [Recvfrom (Some (take 516 d)), Print InvalidData]\<rparr>)"
  using assms
  by (auto simp add: get_loop.simps [of b w] recvfrom_Datagram BUFFER_SIZE_def print_def emit_def)

lemma get_loop_step_short:
  assumes "inbox w = Datagram d # rest" and "length d < 4"
  shows "get_loop b w =
    (Some StructError, w\<lparr>inbox := rest, trace := trace w @ [Recvfrom (Some (take 516 d))]\<rparr>)"
  using assms unpack_HH_short [of d]
  by (simp add: get_loop.simps [of b w] recvfrom_Datagram BUFFER_SIZE_def)

lemma get_loop_step_quiet:
  assumes "quiet (inbox w)"
  shows "get_loop b w =
    (None, w\<lparr>inbox := tl (inbox w), trace := trace w @ [Recvfrom None, Print TimeoutData]\<rparr>)"
  using assms
  by (simp add: get_loop.simps [of b w] recvfrom_quiet print_def emit_def)

lemma get_loop_rejected:
  assumes "rejected b (inbox w)"
  shows "snd (get_loop b w) =
    w\<lparr>inbox := tl (inbox w), trace := trace w @ rejection (inbox w)\<rparr>"
proof (cases "inbox w" rule: rejection.cases)
  case 1
  then have "quiet (inbox w)" by simp
  with 1 show ?thesis by (simp add: get_loop_step_quiet)
next
  case (2 es)
  then have "quiet (inbox w)" by simp
  with 2 show ?thesis by (simp add: get_loop_step_quiet)
next
  case (3 d es)
  show ?thesis
  proof (cases "length d < 4")
    case True
    with 3 show ?thesis by (simp add: get_loop_step_short [where d = d and rest = es])
  next
    case False
    then obtain opcode block where un: "unpack_HH (take 4 d) = Inr (opcode, block)"
      by (simp add: unpack_HH_long)
    with assms 3 have "opcode \<noteq> DATA \<or> block \<noteq> b + 1" by simp
    with 3 un False show ?thesis
      by (simp add: get_loop_step_invalid
          [where d = d and rest = es and opcode = opcode and block = block])
  qed
qed

subsection \<open>Rounds in sequence\<close>

text \<open>Rounds that are acknowledged in sequence, after full chunks, lead to the next round.\<close>

lemma put_loop_rounds:
  "acks_from b rs \<Longrightarrow> 512 * length rs \<le> length f \<Longrightarrow> b + length rs \<le> 65535 \<Longrightarrow>
   inbox w = map Datagram rs @ rest \<Longrightarrow>
   put_loop b f w =
     put_loop (b + length rs) (drop (512 * length rs) f)
       (w\<lparr>inbox := rest, trace := trace w @ put_rounds b f rs\<rparr>)"
proof (induction rs arbitrary: b f w)
  case Nil
  then have "rest = inbox w" by simp
  then show ?case by simp
next
  case (Cons r rs)
  let ?w = "w\<lparr>inbox := map Datagram rs @ rest,
               trace := trace w @ [Sendto (be16 DATA @ be16 (b + 1) @ take 512 f),
                                   Recvfrom (Some (take 516 r))]\<rparr>"
  from Cons.prems have step: "put_loop b f w = put_loop (b + 1) (drop 512 f) ?w"
    by (subst put_loop_step_ack [where r = r and rest = "map Datagram rs @ rest"]) simp_all
  from Cons.prems have "put_loop (b + 1) (drop 512 f) ?w =
     put_loop (b + 1 + length rs) (drop (512 * length rs) (drop 512 f))
       (?w\<lparr>inbox := rest, trace := trace ?w @ put_rounds (b + 1) (drop 512 f) rs\<rparr>)"
    by (intro Cons.IH) simp_all
  with step show ?case
    by (simp add: add.commute [of 512])
qed

text \<open>Full blocks that arrive in sequence lead to the next round.\<close>

lemma get_loop_rounds:
  "full_blocks_from b ds \<Longrightarrow> inbox w = map Datagram ds @ rest \<Longrightarrow> local_file w = Regular c \<Longrightarrow>
   get_loop b w =
     get_loop (b + length ds)
       (w\<lparr>inbox := rest, local_file := Regular (c @ concat (map payload ds)),
          trace := trace w @ get_rounds b ds\<rparr>)"
proof (induction ds arbitrary: b w c)
  case Nil
  then have "rest = inbox w" "Regular c = local_file w" by simp_all
  then show ?case by simp
next
  case (Cons d ds)
  let ?w = "w\<lparr>inbox := map Datagram ds @ rest, local_file := Regular (c @ payload d),
               trace := trace w @ [Recvfrom (Some (take 516 d)), Write (payload d),
                                   Sendto (be16 ACK @ be16 (b + 1))]\<rparr>"
  from Cons.prems have len: "length (payload d) = 512"
    by (simp add: payload_def)
  from Cons.prems have step: "get_loop b w = get_loop (b + 1) ?w"
    by (subst get_loop_step_data [where d = d and rest = "map Datagram ds @ rest" and c = c])
      (simp_all add: len)
  from Cons.prems have "get_loop (b + 1) ?w =
     get_loop (b + 1 + length ds)
       (?w\<lparr>inbox := rest, local_file := Regular ((c @ payload d) @ concat (map payload ds)),
           trace := trace ?w @ get_rounds (b + 1) ds\<rparr>)"
    by (intro Cons.IH) simp_all
  with step show ?case
    by simp
qed

lemma sent_of_append: "sent_of (t @ u) = sent_of t @ sent_of u"
  by (induction t rule: sent_of.induct) simp_all

lemma printed_of_append: "printed_of (t @ u) = printed_of t @ printed_of u"
  by (induction t rule: printed_of.induct) simp_all

lemma writes_of_append: "writes_of (t @ u) = writes_of t @ writes_of u"
  by (induction t rule: writes_of.induct) simp_all

lemma sent_of_put_rounds:
  "sent_of (put_rounds b f rs) =
     map (\<lambda>i. be16 DATA @ be16 (b + i + 1) @ take 512 (drop (512 * i) f)) [0..<length rs]"
proof (induction rs arbitrary: b f)
  case Nil
  show ?case by simp
next
  case (Cons r rs)
  have "[0..<length (r # rs)] = 0 # map Suc [0..<length rs]"
    by (simp add: upt_conv_Cons map_Suc_upt del: upt_Suc)
  then show ?case
    by (simp add: Cons.IH comp_def add.commute [of 512] del: upt_Suc)
qed

lemma length_sent_of_put_rounds: "length (sent_of (put_rounds b f rs)) = length rs"
  by (simp add: sent_of_put_rounds)

lemma printed_of_put_rounds: "printed_of (put_rounds b f rs) = []"
  by (induction rs arbitrary: b f) simp_all

lemma length_sent_of_get_rounds: "length (sent_of (get_rounds b ds)) = length ds"
  by (induction ds arbitrary: b) simp_all

lemma printed_of_get_rounds: "printed_of (get_rounds b ds) = []"
  by (induction ds arbitrary: b) simp_all

lemma writes_of_get_rounds: "writes_of (get_rounds b ds) = map payload ds"
  by (induction ds arbitrary: b) simp_all

lemma acks_from_upt: "b + n \<le> 65535 \<Longrightarrow> acks_from b (map ack_reply [b + 1..<b + n + 1])"
proof (induction n arbitrary: b)
  case 0
  show ?case by simp
next
  case (Suc n)
  have "[b + 1..<b + Suc n + 1] = (b + 1) # [b + 1 + 1..<b + 1 + n + 1]"
    by (simp add: upt_conv_Cons del: upt_Suc)
  moreover from Suc.prems have "acks_from (b + 1) (map ack_reply [b + 1 + 1..<b + 1 + n + 1])"
    by (intro Suc.IH) simp
  moreover from Suc.prems have "unpack_HH (take 4 (ack_reply (b + 1))) = Inr (ACK, b + 1)"
    by (simp add: ack_reply_def unpack_be16 ACK_def)
  ultimately show ?case by simp
qed

lemma full_blocks_from_upt:
  "b + n \<le> 65535 \<Longrightarrow> full_blocks_from b (map full_block [b + 1..<b + n + 1])"
proof (induction n arbitrary: b)
  case 0
  show ?case by simp
next
  case (Suc n)
  have "[b + 1..<b + Suc n + 1] = (b + 1) # [b + 1 + 1..<b + 1 + n + 1]"
    by (simp add: upt_conv_Cons del: upt_Suc)
  moreover from Suc.prems
  have "full_blocks_from (b + 1) (map full_block [b + 1 + 1..<b + 1 + n + 1])"
    by (intro Suc.IH) simp
  moreover from Suc.prems
  have "unpack_HH (take 4 (full_block (b + 1))) = Inr (DATA, b + 1)"
    by (simp add: full_block_def unpack_be16 DATA_def)
  moreover have "length (full_block (b + 1)) = 516"
    by (simp add: full_block_def)
  ultimately show ?case by simp
qed

subsection \<open>Every run of the loops\<close>

lemma numbered_nth:
  "numbered opcode b ps \<Longrightarrow> i < length ps \<Longrightarrow>
   b + i < 65535 \<and> take 4 (ps ! i) = be16 opcode @ be16 (b + i + 1)"
proof (induction ps arbitrary: b i)
  case Nil
  then show ?case by simp
next
  case (Cons p ps)
  show ?case
  proof (cases i)
    case 0
    with Cons.prems show ?thesis by simp
  next
    case (Suc j)
    with Cons.prems have "b + 1 + j < 65535 \<and> take 4 (ps ! j) = be16 opcode @ be16 (b + 1 + j + 1)"
      by (intro Cons.IH) simp_all
    with Suc show ?thesis by simp
  qed
qed

lemma put_loop_extends:
  "\<exists>t. trace (snd (put_loop b f w)) = trace w @ t \<and> CloseSock \<notin> set t
       \<and> numbered DATA b (sent_of t)"
proof (induction "inbox w" arbitrary: b f w)
  case Nil
  show ?case
  proof (cases "b < 65535")
    case False
    then show ?thesis by (simp add: put_loop_overflow)
  next
    case True
    moreover from Nil have "quiet (inbox w)" by (metis quiet.simps(1))
    ultimately show ?thesis by (simp add: put_loop_step_quiet)
  qed
next
  case (Cons e es)
  show ?case
  proof (cases "b < 65535")
    case False
    then show ?thesis by (simp add: put_loop_overflow)
  next
    case b: True
    show ?thesis
    proof (cases e)
      case Silence
      with Cons.hyps(2) have "quiet (inbox w)" by (metis quiet.simps(2))
      with b show ?thesis by (simp add: put_loop_step_quiet)
    next
      case (Datagram r)
      with Cons.hyps(2) have inbox: "inbox w = Datagram r # es" by simp
      show ?thesis
      proof (cases "length r < 4")
        case True
        with b inbox show ?thesis by (simp add: put_loop_step_short [where r = r and rest = es])
      next
        case False
        then obtain opcode block where un: "unpack_HH (take 4 r) = Inr (opcode, block)"
          by (simp add: unpack_HH_long)
        show ?thesis
        proof (cases "opcode = ACK \<and> block = b + 1")
          case False
          with b inbox un show ?thesis
            by (simp add: put_loop_step_invalid
                [where r = r and rest = es and opcode = opcode and block = block])
        next
          case True
          let ?w = "w\<lparr>inbox := es,
               trace := trace w @ [Sendto (be16 DATA @ be16 (b + 1) @ take 512 f),
                                   Recvfrom (Some (take 516 r))]\<rparr>"
          from True un have ack: "unpack_HH (take 4 r) = Inr (ACK, b + 1)" by simp
          show ?thesis
          proof (cases "length f < 512")
            case True
            with b inbox ack show ?thesis
              by (simp add: put_loop_step_ack [where r = r and rest = es])
          next
            case False
            with b inbox ack have step: "put_loop b f w = put_loop (b + 1) (drop 512 f) ?w"
              by (simp add: put_loop_step_ack [where r = r and rest = es])
            have "es = inbox ?w" by simp
            then obtain t where t: "trace (snd (put_loop (b + 1) (drop 512 f) ?w)) = trace ?w @ t"
              "CloseSock \<notin> set t" "numbered DATA (b + 1) (sent_of t)"
              using Cons.hyps(1) by blast
            with b step show ?thesis by simp
          qed
        qed
      qed
    qed
  qed
qed

lemma get_loop_extends:
  "\<exists>t. trace (snd (get_loop b w)) = trace w @ t \<and> CloseSock \<notin> set t
       \<and> numbered ACK b (sent_of t)"
proof (induction "inbox w" arbitrary: b w)
  case Nil
  then have "quiet (inbox w)" by (metis quiet.simps(1))
  then show ?case by (simp add: get_loop_step_quiet)
next
  case (Cons e es)
  show ?case
  proof (cases e)
    case Silence
    with Cons.hyps(2) have "quiet (inbox w)" by (metis quiet.simps(2))
    then show ?thesis by (simp add: get_loop_step_quiet)
  next
    case (Datagram d)
    with Cons.hyps(2) have inbox: "inbox w = Datagram d # es" by simp
    show ?thesis
    proof (cases "length d < 4")
      case True
      with inbox show ?thesis by (simp add: get_loop_step_short [where d = d and rest = es])
    next
      case False
      then obtain opcode block where un: "unpack_HH (take 4 d) = Inr (opcode, block)"
        by (simp add: unpack_HH_long)
      show ?thesis
      proof (cases "opcode = DATA \<and> block = b + 1")
        case False
        with inbox un show ?thesis
          by (simp add: get_loop_step_invalid
              [where d = d and rest = es and opcode = opcode and block = block])
      next
        case True
        with un have data: "unpack_HH (take 4 d) = Inr (DATA, b + 1)" by simp
        then have b: "b < 65535"
          by (auto dest: unpack_HH_bound)
        let ?w = "w\<lparr>inbox := es,
               local_file := (case local_file w of Regular c \<Rightarrow> Regular (c @ payload d)
                              | e \<Rightarrow> e),
               trace := trace w @ [Recvfrom (Some (take 516 d)), Write (payload d),
                                   Sendto (be16 ACK @ be16 (b + 1))]\<rparr>"
        note step = get_loop_step_data_any [OF inbox data]
        show ?thesis
        proof (cases "length (payload d) < 512")
          case True
          with step b show ?thesis by simp
        next
          case False
          have "es = inbox ?w" by simp
          then obtain t where "trace (snd (get_loop (b + 1) ?w)) = trace ?w @ t"
            "CloseSock \<notin> set t" "numbered ACK (b + 1) (sent_of t)"
            using Cons.hyps(1) by blast
          with False step b show ?thesis by simp
        qed
      qed
    qed
  qed
qed

lemma handle_put_extends:
  "\<exists>t. trace (snd (handle_put filename w)) = trace w @ t \<and> CloseSock \<notin> set t
       \<and> numbered DATA 0 (sent_of t)"
proof (cases "local_file w")
  case (Regular content)
  obtain t where "trace (snd (put_loop 0 content (emit OpenFile w))) = trace (emit OpenFile w) @ t"
    "CloseSock \<notin> set t" "numbered DATA 0 (sent_of t)"
    using put_loop_extends by blast
  with Regular show ?thesis
    by (simp add: handle_put_def emit_def split_beta sent_of_append)
qed (simp_all add: handle_put_def print_def emit_def)

lemma handle_get_extends:
  "\<exists>t. trace (snd (handle_get filename w)) = trace w @ t \<and> CloseSock \<notin> set t
       \<and> numbered ACK 0 (sent_of t)"
proof (cases "local_file w = Directory")
  case True
  then show ?thesis by (simp add: handle_get_def)
next
  case False
  let ?w = "emit OpenFile (w\<lparr>local_file := Regular []\<rparr>)"
  obtain t where "trace (snd (get_loop 0 ?w)) = trace ?w @ t"
    "CloseSock \<notin> set t" "numbered ACK 0 (sent_of t)"
    using get_loop_extends by blast
  with False show ?thesis
    by (cases "local_file w") (simp_all add: handle_get_def emit_def split_beta sent_of_append)
qed

lemma main_closes_once:
  "count_list (trace (snd (main operation filename w))) CloseSock =
     count_list (trace w) CloseSock + 1"
proof -
  have count: "count_list (trace v @ t) CloseSock = count_list (trace v) CloseSock"
    if "CloseSock \<notin> set t" for v t
    using that by simp
  show ?thesis
  proof (cases "operation = ''get''")
    case True
    let ?w = "sendto (be16 RRQ @ pack_s (length filename + 1) (encode filename)
                @ pack_s (length ''octet'' + 1) (encode ''octet''))
               (print (InitiatingGet filename) w)"
    obtain t where "trace (snd (handle_get filename ?w)) = trace ?w @ t" "CloseSock \<notin> set t"
      using handle_get_extends by blast
    with True show ?thesis
      by (simp add: main_def build_request_ok RRQ_def split_beta close_sock_def emit_def
          sendto_def print_def)
  next
    case False
    show ?thesis
    proof (cases "operation = ''put''")
      case True
      let ?w = "sendto (be16 WRQ @ pack_s (length filename + 1) (encode filename)
                  @ pack_s (length ''octet'' + 1) (encode ''octet''))
                 (print (InitiatingPut filename) w)"
      obtain t where "trace (snd (handle_put filename ?w)) = trace ?w @ t" "CloseSock \<notin> set t"
        using handle_put_extends by blast
      with True show ?thesis
        by (simp add: main_def build_request_ok WRQ_def split_beta close_sock_def emit_def
            sendto_def print_def)
    next
      case False
      with \<open>operation \<noteq> ''get''\<close> show ?thesis
        by (simp add: main_def close_sock_def emit_def print_def)
    qed
  qed
qed

subsection \<open>Handlers that end without success\<close>

lemma handle_put_timeout:
  assumes "local_file w = Regular content"
    and "acks_from 0 rs" and "512 * length rs \<le> length content" and "length rs < 65535"
    and "inbox w = map Datagram rs @ rest" and "quiet rest"
  shows "handle_put filename w =
    (None, w\<lparr>inbox := tl rest,
              trace := trace w @ OpenFile # put_rounds 0 content rs @
                [Sendto (be16 DATA @ be16 (length rs + 1)
                           @ take 512 (drop (512 * length rs) content)),
                 Recvfrom None, Print TimeoutAck, CloseFile]\<rparr>)"
proof -
  let ?w0 = "emit OpenFile w"
  let ?w1 = "?w0\<lparr>inbox := rest, trace := trace ?w0 @ put_rounds 0 content rs\<rparr>"
  have "put_loop 0 content ?w0 = put_loop (0 + length rs) (drop (512 * length rs) content) ?w1"
    using assms(2-5) by (intro put_loop_rounds) (simp_all add: emit_def)
  also have "\<dots> = (None, ?w1\<lparr>inbox := tl (inbox ?w1),
       trace := trace ?w1 @
         [Sendto (be16 DATA @ be16 (length rs + 1) @ take 512 (drop (512 * length rs) content)),
          Recvfrom None, Print TimeoutAck]\<rparr>)"
    using assms(4,6) by (subst put_loop_step_quiet) simp_all
  finally show ?thesis
    using assms(1) by (simp add: handle_put_def emit_def)
qed

lemma handle_get_rejected:
  assumes "local_file w \<noteq> Directory" and "full_blocks_from 0 ds"
    and "inbox w = map Datagram ds @ rest" and "rejected (length ds) rest"
  shows "snd (handle_get filename w) =
      w\<lparr>inbox := tl rest, local_file := Regular (concat (map payload ds)),
         trace := trace w @ OpenFile # get_rounds 0 ds @ rejection rest @ [CloseFile]\<rparr>"
proof -
  let ?w0 = "emit OpenFile (w\<lparr>local_file := Regular []\<rparr>)"
  let ?w1 = "?w0\<lparr>inbox := rest, local_file := Regular ([] @ concat (map payload ds)),
                trace := trace ?w0 @ get_rounds 0 ds\<rparr>"
  have "get_loop 0 ?w0 = get_loop (0 + length ds) ?w1"
    using assms(2,3) by (intro get_loop_rounds) (simp_all add: emit_def)
  moreover have "snd (get_loop (0 + length ds) ?w1) =
      ?w1\<lparr>inbox := tl (inbox ?w1), trace := trace ?w1 @ rejection (inbox ?w1)\<rparr>"
    using assms(4) by (intro get_loop_rejected) simp
  ultimately show ?thesis
    using assms(1)
    by (cases "local_file w") (simp_all add: handle_get_def emit_def split_beta)
qed

lemma handle_get_timeout:
  assumes "local_file w \<noteq> Directory" and "full_blocks_from 0 ds"
    and "inbox w = map Datagram ds @ rest" and "quiet rest"
  shows "handle_get filename w =
      (None, w\<lparr>inbox := tl rest, local_file := Regular (concat (map payload ds)),
         trace := trace w @ OpenFile # get_rounds 0 ds @
            [Recvfrom None, Print TimeoutData, CloseFile]\<rparr>)"
proof -
  let ?w0 = "emit OpenFile (w\<lparr>local_file := Regular []\<rparr>)"
  let ?w1 = "?w0\<lparr>inbox := rest, local_file := Regular ([] @ concat (map payload ds)),
                trace := trace ?w0 @ get_rounds 0 ds\<rparr>"
  have "get_loop 0 ?w0 = get_loop (0 + length ds) ?w1"
    using assms(2,3) by (intro get_loop_rounds) (simp_all add: emit_def)
  also have "\<dots> = (None, ?w1\<lparr>inbox := tl (inbox ?w1),
      trace := trace ?w1 @ [Recvfrom None, Print TimeoutData]\<rparr>)"
    using assms(4) by (intro get_loop_step_quiet) simp
  finally show ?thesis
    using assms(1)
    by (cases "local_file w") (simp_all add: handle_get_def emit_def)
qed

subsection \<open>ASCII fields\<close>

lemma unat_of_char: "unat (of_char c :: byte) = of_char c"
proof -
  have "unat (of_nat (of_char c :: nat) :: byte) = of_char c mod 2 ^ LENGTH(8)"
    by (rule unat_of_nat)
  then show ?thesis
    by (simp add: of_nat_of_char)
qed

lemma encode_ascii: "\<forall>c\<in>set s. (of_char c :: nat) < 128 \<Longrightarrow> encode s = map of_char s"
  by (induction s) (simp_all add: encode_def encode_char_def of_nat_of_char)

lemma of_char_byte_nonzero: "0 < (of_char c :: nat) \<Longrightarrow> (of_char c :: byte) \<noteq> 0"
  using unat_of_char [of c] by auto

lemma ascii_string_of_char: "ascii_string (map of_char s) = s"
  by (induction s) (simp_all add: ascii_string_def unat_of_char)

lemma takeWhile_field:
  "valid_field s \<Longrightarrow>
   takeWhile (\<lambda>b. b \<noteq> 0) (map of_char s @ 0 # rest) = (map of_char s :: bytes)"
  by (induction s) (simp_all add: valid_field_def of_char_byte_nonzero)

section \<open>The claims\<close>

subsection \<open>Block numbers\<close>

text \<open>
  C1, as the program has it. The block number is a Python integer that starts at 0 and is
  increased by 1; nothing reduces it modulo 65536. In every upload the DATA packets sent
  carry, in their first four bytes, the opcode DATA and the blocks 1, 2, 3, \<dots> in this
  order, and in every download the ACK packets sent carry the opcode ACK and the blocks
  1, 2, 3, \<dots> in this order; no run sends more than 65535 of them, so that no block field
  is ever a wrapped value.
\<close>

theorem block_field_is_counter:
  assumes "trace w = []"
  shows "(i < length (sent_of (trace (snd (handle_put filename w)))) \<longrightarrow>
            i < 65535 \<and>
            take 4 (sent_of (trace (snd (handle_put filename w))) ! i) = be16 DATA @ be16 (i + 1))
       \<and> (i < length (sent_of (trace (snd (handle_get filename w)))) \<longrightarrow>
            i < 65535 \<and>
            take 4 (sent_of (trace (snd (handle_get filename w))) ! i) = be16 ACK @ be16 (i + 1))"
proof -
  obtain t where "trace (snd (handle_put filename w)) = trace w @ t"
    and "numbered DATA 0 (sent_of t)"
    using handle_put_extends by blast
  with assms have put: "numbered DATA 0 (sent_of (trace (snd (handle_put filename w))))"
    by simp
  obtain u where "trace (snd (handle_get filename w)) = trace w @ u"
    and "numbered ACK 0 (sent_of u)"
    using handle_get_extends by blast
  with assms have get: "numbered ACK 0 (sent_of (trace (snd (handle_get filename w))))"
    by simp
  from numbered_nth [OF put, of i] numbered_nth [OF get, of i] show ?thesis
    by simp
qed

theorem block_field_is_counter_witness:
  "1 < length (sent_of (trace (snd (handle_put ''f''
      \<lparr>inbox = [Datagram (ack_reply 1), Datagram (ack_reply 2)],
        local_file = Regular (replicate 600 7), trace = []\<rparr>))))
   \<and> take 4 (sent_of (trace (snd (handle_put ''f''
      \<lparr>inbox = [Datagram (ack_reply 1), Datagram (ack_reply 2)],
        local_file = Regular (replicate 600 7), trace = []\<rparr>))) ! 1) = be16 DATA @ be16 2
   \<and> 1 < length (sent_of (trace (snd (handle_get ''g''
      \<lparr>inbox = [Datagram (full_block 1), Datagram (be16 DATA @ be16 2 @ [1, 2, 3])],
        local_file = Absent, trace = []\<rparr>))))
   \<and> take 4 (sent_of (trace (snd (handle_get ''g''
      \<lparr>inbox = [Datagram (full_block 1), Datagram (be16 DATA @ be16 2 @ [1, 2, 3])],
        local_file = Absent, trace = []\<rparr>))) ! 1) = be16 ACK @ be16 2"
proof -
  let ?wp = "\<lparr>inbox = [Datagram (ack_reply 1), Datagram (ack_reply 2)],
        local_file = Regular (replicate 600 7), trace = []\<rparr>"
  let ?wg = "\<lparr>inbox = [Datagram (full_block 1), Datagram (be16 DATA @ be16 2 @ [1, 2, 3])],
        local_file = Absent, trace = []\<rparr>"
  have p: "sent_of (trace (snd (handle_put ''f'' ?wp))) =
      [be16 DATA @ be16 1 @ replicate 512 7, be16 DATA @ be16 2 @ replicate 88 7]"
    by (simp add: handle_put_def put_loop.simps [of 0] put_loop.simps [of "Suc 0"]
        pack_HH_ok DATA_def ACK_def
        recvfrom_def sendto_def emit_def print_def BUFFER_SIZE_def ack_reply_def unpack_be16
        numeral_2_eq_2 [symmetric])
  have g: "sent_of (trace (snd (handle_get ''g'' ?wg))) = [be16 ACK @ be16 1, be16 ACK @ be16 2]"
    by (simp add: handle_get_def get_loop.simps [of 0] get_loop.simps [of "Suc 0"]
        pack_HH_ok DATA_def ACK_def send_ack_def file_write_def full_block_def
        recvfrom_def sendto_def emit_def print_def BUFFER_SIZE_def unpack_be16
        numeral_2_eq_2 [symmetric])
  note put = block_field_is_counter [of ?wp 1 "''f''", unfolded p]
    and get = block_field_is_counter [of ?wg 1 "''g''", unfolded g]
  from put get show ?thesis
    unfolding p g by simp
qed

text \<open>
  C1 as the specification states it fails: in a download that has received the blocks 1 to
  65535, the next block, which a server that counts modulo 65536 numbers 0, is refused as
  an invalid DATA packet and is not acknowledged, because the client compares it with
  65536.
\<close>

theorem wrapped_block_counterexample:
  "printed_of (trace (snd (handle_get ''f''
     \<lparr>inbox = map Datagram (map full_block [1..<65536]) @ [Datagram (be16 DATA @ be16 0)],
      local_file = Absent, trace = []\<rparr>))) = [InvalidData]
   \<and> length (sent_of (trace (snd (handle_get ''f''
     \<lparr>inbox = map Datagram (map full_block [1..<65536]) @ [Datagram (be16 DATA @ be16 0)],
      local_file = Absent, trace = []\<rparr>)))) = 65535"
proof -
  let ?ds = "map full_block [1..<65536]"
  let ?w = "\<lparr>inbox = map Datagram ?ds @ [Datagram (be16 DATA @ be16 0)],
             local_file = Absent, trace = []\<rparr>"
  let ?w0 = "emit OpenFile (?w\<lparr>local_file := Regular []\<rparr>)"
  let ?w1 = "?w0\<lparr>inbox := [Datagram (be16 DATA @ be16 0)],
                local_file := Regular ([] @ concat (map payload ?ds)),
                trace := trace ?w0 @ get_rounds 0 ?ds\<rparr>"
  have full: "full_blocks_from 0 ?ds"
    using full_blocks_from_upt [of 0 65535] by simp
  have "get_loop 0 ?w0 = get_loop (0 + length ?ds) ?w1"
    using full by (intro get_loop_rounds) (simp_all add: emit_def)
  also have "\<dots> = (None, ?w1\<lparr>inbox := [],
      trace := trace ?w1 @ [Recvfrom (Some (take 516 (be16 DATA @ be16 0))), Print InvalidData]\<rparr>)"
    by (subst get_loop_step_invalid
          [where d = "be16 DATA @ be16 0" and rest = "[]" and opcode = DATA and block = 0])
      (simp_all add: unpack_be16 DATA_def)
  finally show ?thesis
    by (simp add: handle_get_def emit_def sent_of_append printed_of_append
        length_sent_of_get_rounds printed_of_get_rounds)
qed

subsection \<open>An ERROR packet during a download\<close>

text \<open>
  C2, as the program has it. In any round of a download, an inbound datagram whose opcode
  is ERROR ends the loop with the report \<^verbatim>\<open>Invalid DATA packet received\<close>, the one that
  every packet other than the expected DATA block gets. The result does not depend on the
  error code or on the message; nothing is written and nothing is sent.
\<close>

theorem get_loop_error_packet:
  assumes "inbox w = Datagram d # rest" and "unpack_HH (take 4 d) = Inr (ERROR, code)"
  shows "get_loop b w =
    (None, w\<lparr>inbox := rest,
              trace := trace w @ [Recvfrom (Some (take 516 d)), Print InvalidData]\<rparr>)"
  using assms
  by (simp add: get_loop.simps [of b w] recvfrom_Datagram BUFFER_SIZE_def ERROR_def DATA_def
      print_def emit_def)

theorem get_loop_error_packet_witness:
  "get_loop 0 \<lparr>inbox = [Datagram [0, 5, 0, 1, 70, 0]], local_file = Regular [], trace = []\<rparr> =
    (None, \<lparr>inbox = [], local_file = Regular [],
             trace = [Recvfrom (Some [0, 5, 0, 1, 70, 0]), Print InvalidData]\<rparr>)"
  using get_loop_error_packet [of "\<lparr>inbox = [Datagram [0, 5, 0, 1, 70, 0]],
      local_file = Regular [], trace = []\<rparr>" "[0, 5, 0, 1, 70, 0]" "[]" 1 0]
  by (simp add: unpack_HH_def ERROR_def)

text \<open>
  C2 as the specification states it fails: a download whose first datagram is an ERROR
  packet (code 1, message \<open>F\<close>) prints what a download whose first datagram is an
  unexpected ACK prints, and nothing of the code or the message.
\<close>

theorem error_packet_counterexample:
  "handle_get ''f'' \<lparr>inbox = [Datagram [0, 5, 0, 1, 70, 0]], local_file = Absent, trace = []\<rparr> =
     (None, \<lparr>inbox = [], local_file = Regular [],
              trace = [OpenFile, Recvfrom (Some [0, 5, 0, 1, 70, 0]), Print InvalidData,
                       CloseFile]\<rparr>)
   \<and> printed_of (trace (snd (handle_get ''f''
        \<lparr>inbox = [Datagram [0, 4, 0, 1]], local_file = Absent, trace = []\<rparr>))) = [InvalidData]"
  by (simp add: handle_get_def get_loop.simps [of 0] recvfrom_def emit_def print_def
      BUFFER_SIZE_def unpack_HH_def DATA_def)

subsection \<open>Decoding inbound datagrams\<close>

text \<open>
  C3, as the program has it. Both handlers decode an inbound buffer with
  \<^verbatim>\<open>struct.unpack("!HH", response[:4])\<close>. This fails, with \<^verbatim>\<open>struct.error\<close>, exactly when
  the buffer has fewer than four bytes, whatever its opcode. On every longer buffer it
  returns the opcode and the block, read big-endian, for every value of the opcode: no
  opcode is unknown to it. It is a function of the buffer alone.
\<close>

theorem unpack_header_cases:
  "unpack_HH (take 4 buf) =
     (if length buf < 4 then Inl StructError
      else Inr (256 * unat (buf ! 0) + unat (buf ! 1), 256 * unat (buf ! 2) + unat (buf ! 3)))"
  using unpack_HH_short [of buf] unpack_HH_long [of buf] by (cases "length buf < 4") simp_all

theorem unpack_header_cases_witness:
  "unpack_HH (take 4 [0, 4, 1, 2, 7]) = Inr (4, 258) \<and> unpack_HH (take 4 [0, 4, 1]) = Inl StructError"
  using unpack_header_cases [of "[0, 4, 1, 2, 7]"] unpack_header_cases [of "[0, 4, 1]"]
  by simp

text \<open>
  C3 as the specification states it fails: a buffer of four bytes whose opcode is 9 decodes
  without any failure.
\<close>

theorem unknown_opcode_decodes_counterexample:
  "unpack_HH (take 4 [0, 9, 0, 1]) = Inr (9, 1) \<and> 9 \<notin> {RRQ, WRQ, DATA, ACK, ERROR}"
  by (simp add: unpack_HH_def RRQ_def WRQ_def DATA_def ACK_def ERROR_def)

subsection \<open>The final block of zero bytes\<close>

text \<open>
  C4, as the program has it. Upload: the file has \<open>512 * k\<close> bytes with \<open>k < 65535\<close>, the
  server acknowledges the \<open>k\<close> full blocks in sequence and then block \<open>k + 1\<close>. Then
  \<^verbatim>\<open>handle_put\<close> sends the \<open>k\<close> full DATA packets and after them one DATA packet for
  block \<open>k + 1\<close> that is nothing but its four header bytes, and prints the success message.
  Download: after any number of full blocks in sequence, a DATA packet for the next block
  that is nothing but its header (this is what \<open>unpack_HH fin = Inr \<dots>\<close> says) is written
  as an empty payload, acknowledged, and ends \<^verbatim>\<open>handle_get\<close> with the success message.
\<close>

theorem zero_length_final_block:
  assumes "local_file wu = Regular content" and "length content = 512 * k" and "k < 65535"
    and "acks_from 0 rs" and "length rs = k"
    and "unpack_HH (take 4 final) = Inr (ACK, k + 1)"
    and "inbox wu = map Datagram rs @ Datagram final # rest"
    and "local_file wd \<noteq> Directory" and "full_blocks_from 0 ds"
    and "unpack_HH fin = Inr (DATA, length ds + 1)"
    and "inbox wd = map Datagram ds @ Datagram fin # rest'"
  shows "handle_put filename wu =
      (None, wu\<lparr>inbox := rest,
                 trace := trace wu @ OpenFile # put_rounds 0 content rs @
                   [Sendto (be16 DATA @ be16 (k + 1)), Recvfrom (Some (take 516 final)),
                    Print UploadSuccessful, CloseFile]\<rparr>)
    \<and> sent_of (trace (snd (handle_put filename wu))) =
      sent_of (trace wu) @
      map (\<lambda>i. be16 DATA @ be16 (i + 1) @ take 512 (drop (512 * i) content)) [0..<k] @
      [be16 DATA @ be16 (k + 1)]
    \<and> handle_get filename' wd =
      (None, wd\<lparr>inbox := rest', local_file := Regular (concat (map payload ds)),
                 trace := trace wd @ OpenFile # get_rounds 0 ds @
                   [Recvfrom (Some fin), Write [], Sendto (be16 ACK @ be16 (length ds + 1)),
                    Print DownloadSuccessful, CloseFile]\<rparr>)"
proof -
  let ?u0 = "emit OpenFile wu"
  let ?u1 = "?u0\<lparr>inbox := Datagram final # rest, trace := trace ?u0 @ put_rounds 0 content rs\<rparr>"
  have "put_loop 0 content ?u0 = put_loop (0 + length rs) (drop (512 * length rs) content) ?u1"
    using assms(2-5,7) by (intro put_loop_rounds) (simp_all add: emit_def)
  also have "\<dots> = (None, ?u1\<lparr>inbox := rest,
       trace := trace ?u1 @
         [Sendto (be16 DATA @ be16 (k + 1)), Recvfrom (Some (take 516 final)),
          Print UploadSuccessful]\<rparr>)"
    using assms(2,3,5,6)
    by (subst put_loop_step_ack [where r = final and rest = rest]) (simp_all add: emit_def)
  finally have up: "handle_put filename wu =
      (None, wu\<lparr>inbox := rest,
                 trace := trace wu @ OpenFile # put_rounds 0 content rs @
                   [Sendto (be16 DATA @ be16 (k + 1)), Recvfrom (Some (take 516 final)),
                    Print UploadSuccessful, CloseFile]\<rparr>)"
    using assms(1) by (simp add: handle_put_def emit_def)
  have sent: "sent_of (trace (snd (handle_put filename wu))) =
      sent_of (trace wu) @
      map (\<lambda>i. be16 DATA @ be16 (i + 1) @ take 512 (drop (512 * i) content)) [0..<k] @
      [be16 DATA @ be16 (k + 1)]"
    using assms(5) by (simp add: up sent_of_append sent_of_put_rounds)
  let ?d0 = "emit OpenFile (wd\<lparr>local_file := Regular []\<rparr>)"
  let ?d1 = "?d0\<lparr>inbox := Datagram fin # rest',
                 local_file := Regular ([] @ concat (map payload ds)),
                 trace := trace ?d0 @ get_rounds 0 ds\<rparr>"
  from assms(10) have len: "length fin = 4"
    by (rule unpack_HH_length)
  have "get_loop 0 ?d0 = get_loop (0 + length ds) ?d1"
    using assms(9,11) by (intro get_loop_rounds) (simp_all add: emit_def)
  also have "\<dots> = (None, ?d1\<lparr>inbox := rest',
       local_file := Regular (concat (map payload ds) @ payload fin),
       trace := trace ?d1 @
         [Recvfrom (Some (take 516 fin)), Write (payload fin),
          Sendto (be16 ACK @ be16 (length ds + 1)), Print DownloadSuccessful]\<rparr>)"
    using assms(10) len
    by (subst get_loop_step_data
          [where d = fin and rest = rest' and c = "concat (map payload ds)"])
      (simp_all add: emit_def payload_def)
  finally have down: "handle_get filename' wd =
      (None, wd\<lparr>inbox := rest', local_file := Regular (concat (map payload ds)),
                 trace := trace wd @ OpenFile # get_rounds 0 ds @
                   [Recvfrom (Some fin), Write [], Sendto (be16 ACK @ be16 (length ds + 1)),
                    Print DownloadSuccessful, CloseFile]\<rparr>)"
    using assms(8) len
    by (cases "local_file wd") (simp_all add: handle_get_def emit_def payload_def)
  from up sent down show ?thesis by simp
qed

theorem zero_length_final_block_witness:
  "handle_put ''f''
     \<lparr>inbox = [Datagram (ack_reply 1), Datagram (ack_reply 2)],
      local_file = Regular (replicate 512 7), trace = []\<rparr> =
     (None, \<lparr>inbox = [], local_file = Regular (replicate 512 7),
              trace = [OpenFile,
                       Sendto (be16 DATA @ be16 1 @ replicate 512 7),
                       Recvfrom (Some (ack_reply 1)),
                       Sendto (be16 DATA @ be16 2), Recvfrom (Some (ack_reply 2)),
                       Print UploadSuccessful, CloseFile]\<rparr>)
   \<and> handle_get ''g''
     \<lparr>inbox = [Datagram (full_block 1), Datagram (be16 DATA @ be16 2)],
      local_file = Absent, trace = []\<rparr> =
     (None, \<lparr>inbox = [], local_file = Regular (replicate 512 0),
              trace = [OpenFile,
                       Recvfrom (Some (full_block 1)), Write (replicate 512 0),
                       Sendto (be16 ACK @ be16 1),
                       Recvfrom (Some (be16 DATA @ be16 2)), Write [],
                       Sendto (be16 ACK @ be16 2),
                       Print DownloadSuccessful, CloseFile]\<rparr>)"
  using zero_length_final_block [of
      "\<lparr>inbox = [Datagram (ack_reply 1), Datagram (ack_reply 2)],
        local_file = Regular (replicate 512 7), trace = []\<rparr>"
      "replicate 512 7" 1 "[ack_reply 1]" "ack_reply 2" "[]"
      "\<lparr>inbox = [Datagram (full_block 1), Datagram (be16 DATA @ be16 2)],
        local_file = Absent, trace = []\<rparr>"
      "[full_block 1]" "be16 DATA @ be16 2" "[]" "''f''" "''g''"]
  by (simp add: ack_reply_def full_block_def unpack_be16 ACK_def DATA_def payload_packet
      numeral_2_eq_2 [symmetric])

text \<open>
  C4 as the specification states it, for every file whose size is a multiple of 512, fails
  for a file of \<open>512 * 65535\<close> bytes: after 65535 acknowledged full blocks the block
  number 65536 does not fit the format \<^verbatim>\<open>!HH\<close>, \<^verbatim>\<open>struct.pack\<close> raises, and no DATA packet
  of zero bytes is sent.
\<close>

theorem large_upload_counterexample:
  "fst (handle_put ''f''
     \<lparr>inbox = map Datagram (map ack_reply [1..<65536]),
      local_file = Regular (replicate (512 * 65535) 0), trace = []\<rparr>) = Some StructError
   \<and> length (sent_of (trace (snd (handle_put ''f''
     \<lparr>inbox = map Datagram (map ack_reply [1..<65536]),
      local_file = Regular (replicate (512 * 65535) 0), trace = []\<rparr>)))) = 65535
   \<and> printed_of (trace (snd (handle_put ''f''
     \<lparr>inbox = map Datagram (map ack_reply [1..<65536]),
      local_file = Regular (replicate (512 * 65535) 0), trace = []\<rparr>))) = []"
proof -
  let ?rs = "map ack_reply [1..<65536]"
  let ?f = "replicate (512 * 65535) (0 :: byte)"
  let ?w = "\<lparr>inbox = map Datagram ?rs, local_file = Regular ?f, trace = []\<rparr>"
  let ?w1 = "(emit OpenFile ?w)\<lparr>inbox := [],
                trace := trace (emit OpenFile ?w) @ put_rounds 0 ?f ?rs\<rparr>"
  have acks: "acks_from 0 ?rs"
    using acks_from_upt [of 0 65535] by simp
  have "put_loop 0 ?f (emit OpenFile ?w) =
      put_loop (0 + length ?rs) (drop (512 * length ?rs) ?f) ?w1"
    using acks by (intro put_loop_rounds) (simp_all add: emit_def)
  also have "\<dots> = (Some StructError, ?w1)"
    by (rule put_loop_overflow) simp
  finally have "handle_put ''f'' ?w = (Some StructError, emit CloseFile ?w1)"
    by (simp add: handle_put_def)
  then show ?thesis
    by (simp add: emit_def sent_of_append printed_of_append length_sent_of_put_rounds
        printed_of_put_rounds)
qed

subsection \<open>A download of four blocks\<close>

text \<open>
  C5. The server answers the request with DATA blocks 1, 2 and 3 of 512 bytes and block 4
  of 200 bytes. Then \<^verbatim>\<open>handle_get\<close> returns after exactly four rounds, each of them one
  receive, one write of the payload received and one ACK of the block received; the
  file holds the four payloads in order; the success message is printed; later events
  stay in the socket.
\<close>

theorem download_four_blocks:
  assumes "length p1 = 512" and "length p2 = 512" and "length p3 = 512" and "length p4 = 200"
    and "inbox w = Datagram (be16 DATA @ be16 1 @ p1) # Datagram (be16 DATA @ be16 2 @ p2)
           # Datagram (be16 DATA @ be16 3 @ p3) # Datagram (be16 DATA @ be16 4 @ p4) # rest"
    and "local_file w \<noteq> Directory"
  shows "handle_get filename w =
    (None, w\<lparr>inbox := rest, local_file := Regular (p1 @ p2 @ p3 @ p4),
              trace := trace w @
                [OpenFile,
                 Recvfrom (Some (be16 DATA @ be16 1 @ p1)), Write p1, Sendto (be16 ACK @ be16 1),
                 Recvfrom (Some (be16 DATA @ be16 2 @ p2)), Write p2, Sendto (be16 ACK @ be16 2),
                 Recvfrom (Some (be16 DATA @ be16 3 @ p3)), Write p3, Sendto (be16 ACK @ be16 3),
                 Recvfrom (Some (be16 DATA @ be16 4 @ p4)), Write p4, Sendto (be16 ACK @ be16 4),
                 Print DownloadSuccessful, CloseFile]\<rparr>)"
proof -
  let ?d1 = "be16 DATA @ be16 1 @ p1" and ?d2 = "be16 DATA @ be16 2 @ p2"
    and ?d3 = "be16 DATA @ be16 3 @ p3" and ?d4 = "be16 DATA @ be16 4 @ p4"
  let ?w0 = "emit OpenFile (w\<lparr>local_file := Regular []\<rparr>)"
  have full: "full_blocks_from 0 [?d1, ?d2, ?d3]"
    using assms(1-3) by (simp add: unpack_be16 DATA_def)
  have "get_loop 0 ?w0 =
     get_loop (0 + length [?d1, ?d2, ?d3])
       (?w0\<lparr>inbox := Datagram ?d4 # rest,
            local_file := Regular ([] @ concat (map payload [?d1, ?d2, ?d3])),
            trace := trace ?w0 @ get_rounds 0 [?d1, ?d2, ?d3]\<rparr>)"
    using full assms(5) by (intro get_loop_rounds) (simp_all add: emit_def)
  also have "\<dots> =
    (None, w\<lparr>inbox := rest, local_file := Regular (p1 @ p2 @ p3 @ p4),
              trace := trace w @
                [OpenFile,
                 Recvfrom (Some ?d1), Write p1, Sendto (be16 ACK @ be16 1),
                 Recvfrom (Some ?d2), Write p2, Sendto (be16 ACK @ be16 2),
                 Recvfrom (Some ?d3), Write p3, Sendto (be16 ACK @ be16 3),
                 Recvfrom (Some ?d4), Write p4, Sendto (be16 ACK @ be16 4),
                 Print DownloadSuccessful]\<rparr>)"
    using assms(1-4)
    by (subst get_loop_step_data [where d = ?d4 and rest = rest and c = "p1 @ p2 @ p3"])
      (simp_all add: payload_packet emit_def unpack_be16 DATA_def numeral_2_eq_2 [symmetric])
  finally show ?thesis
    using assms(6) by (cases "local_file w") (simp_all add: handle_get_def emit_def)
qed

theorem download_four_blocks_witness:
  "handle_get ''f''
     \<lparr>inbox = [Datagram (be16 DATA @ be16 1 @ replicate 512 1),
               Datagram (be16 DATA @ be16 2 @ replicate 512 2),
               Datagram (be16 DATA @ be16 3 @ replicate 512 3),
               Datagram (be16 DATA @ be16 4 @ replicate 200 4)],
      local_file = Absent, trace = []\<rparr> =
   (None,
     \<lparr>inbox = [],
      local_file =
        Regular (replicate 512 1 @ replicate 512 2 @ replicate 512 3 @ replicate 200 4),
      trace =
        [OpenFile,
         Recvfrom (Some (be16 DATA @ be16 1 @ replicate 512 1)), Write (replicate 512 1),
         Sendto (be16 ACK @ be16 1),
         Recvfrom (Some (be16 DATA @ be16 2 @ replicate 512 2)), Write (replicate 512 2),
         Sendto (be16 ACK @ be16 2),
         Recvfrom (Some (be16 DATA @ be16 3 @ replicate 512 3)), Write (replicate 512 3),
         Sendto (be16 ACK @ be16 3),
         Recvfrom (Some (be16 DATA @ be16 4 @ replicate 200 4)), Write (replicate 200 4),
         Sendto (be16 ACK @ be16 4),
         Print DownloadSuccessful, CloseFile]\<rparr>)"
  using download_four_blocks [of "replicate 512 1" "replicate 512 2" "replicate 512 3"
      "replicate 200 4"
      "\<lparr>inbox = [Datagram (be16 DATA @ be16 1 @ replicate 512 1),
               Datagram (be16 DATA @ be16 2 @ replicate 512 2),
               Datagram (be16 DATA @ be16 3 @ replicate 512 3),
               Datagram (be16 DATA @ be16 4 @ replicate 200 4)],
      local_file = Absent, trace = []\<rparr>" "[]" "''f''"]
  by simp

subsection \<open>An upload that is not acknowledged as expected\<close>

text \<open>
  An upload has had its first blocks acknowledged in sequence. The reply to the next
  DATA packet has at least four bytes, and it is not an ACK or it acknowledges another
  block than the one just sent. Then \<^verbatim>\<open>handle_put\<close> prints \<^verbatim>\<open>Invalid ACK received\<close> and
  returns: after that reply it sends nothing and receives nothing. This is the report that
  the program means for a reply that is not the expected acknowledgment.
\<close>

lemma upload_invalid_ack:
  assumes "local_file w = Regular content"
    and "acks_from 0 rs" and "512 * length rs \<le> length content" and "length rs < 65535"
    and "inbox w = map Datagram rs @ Datagram reply # rest"
    and "unpack_HH (take 4 reply) = Inr (opcode, block)"
    and "opcode \<noteq> ACK \<or> block \<noteq> length rs + 1"
  shows "handle_put filename w =
    (None, w\<lparr>inbox := rest,
              trace := trace w @ OpenFile # put_rounds 0 content rs @
                [Sendto (be16 DATA @ be16 (length rs + 1)
                           @ take 512 (drop (512 * length rs) content)),
                 Recvfrom (Some (take 516 reply)), Print InvalidAck, CloseFile]\<rparr>)"
proof -
  let ?w0 = "emit OpenFile w"
  let ?w1 = "?w0\<lparr>inbox := Datagram reply # rest, trace := trace ?w0 @ put_rounds 0 content rs\<rparr>"
  have "put_loop 0 content ?w0 = put_loop (0 + length rs) (drop (512 * length rs) content) ?w1"
    using assms(2-5) by (intro put_loop_rounds) (simp_all add: emit_def)
  also have "\<dots> = (None, ?w1\<lparr>inbox := rest,
       trace := trace ?w1 @
         [Sendto (be16 DATA @ be16 (length rs + 1) @ take 512 (drop (512 * length rs) content)),
          Recvfrom (Some (take 516 reply)), Print InvalidAck]\<rparr>)"
    using assms(4,6,7)
    by (subst put_loop_step_invalid
          [where r = reply and rest = rest and opcode = opcode and block = block])
      (simp_all add: emit_def)
  finally show ?thesis
    using assms(1) by (simp add: handle_put_def emit_def)
qed

lemma upload_invalid_ack_example:
  "handle_put ''f''
     \<lparr>inbox = [Datagram (be16 ACK @ be16 2), Datagram (be16 ACK @ be16 2)],
      local_file = Regular (replicate 600 7), trace = []\<rparr> =
   (None,
     \<lparr>inbox = [Datagram (be16 ACK @ be16 2)], local_file = Regular (replicate 600 7),
      trace = [OpenFile, Sendto (be16 DATA @ be16 1 @ replicate 512 7),
               Recvfrom (Some (be16 ACK @ be16 2)), Print InvalidAck, CloseFile]\<rparr>)"
  using upload_invalid_ack [of
      "\<lparr>inbox = [Datagram (be16 ACK @ be16 2), Datagram (be16 ACK @ be16 2)],
        local_file = Regular (replicate 600 7), trace = []\<rparr>"
      "replicate 600 7" "[]" "be16 ACK @ be16 2" "[Datagram (be16 ACK @ be16 2)]" ACK 2 "''f''"]
  by (simp add: unpack_be16 ACK_def)

text \<open>
  C6 says that every reply that is not an ACK of the block just sent ends the upload with
  the report of an unexpected packet, and that no DATA packet follows. The program does
  this for replies of four bytes or more, as shown above, and misses the replies of fewer
  than four bytes: there \<^verbatim>\<open>struct.unpack\<close> raises \<^verbatim>\<open>struct.error\<close>, which the handler of
  \<^verbatim>\<open>socket.timeout\<close> does not catch, so that \<^verbatim>\<open>handle_put\<close> ends by this exception and
  prints nothing. No DATA packet follows in this case either.
\<close>

theorem upload_short_reply_raises:
  assumes "local_file w = Regular content"
    and "acks_from 0 rs" and "512 * length rs \<le> length content" and "length rs < 65535"
    and "inbox w = map Datagram rs @ Datagram reply # rest"
    and "length reply < 4"
  shows "handle_put filename w =
    (Some StructError,
     w\<lparr>inbox := rest,
        trace := trace w @ OpenFile # put_rounds 0 content rs @
          [Sendto (be16 DATA @ be16 (length rs + 1)
                     @ take 512 (drop (512 * length rs) content)),
           Recvfrom (Some reply), CloseFile]\<rparr>)
    \<and> printed_of (trace (snd (handle_put filename w))) = printed_of (trace w)"
proof -
  let ?w0 = "emit OpenFile w"
  let ?w1 = "?w0\<lparr>inbox := Datagram reply # rest, trace := trace ?w0 @ put_rounds 0 content rs\<rparr>"
  have "put_loop 0 content ?w0 = put_loop (0 + length rs) (drop (512 * length rs) content) ?w1"
    using assms(2-5) by (intro put_loop_rounds) (simp_all add: emit_def)
  also have "\<dots> = (Some StructError, ?w1\<lparr>inbox := rest,
       trace := trace ?w1 @
         [Sendto (be16 DATA @ be16 (length rs + 1) @ take 512 (drop (512 * length rs) content)),
          Recvfrom (Some (take 516 reply))]\<rparr>)"
    using assms(4,6)
    by (subst put_loop_step_short [where r = reply and rest = rest]) (simp_all add: emit_def)
  finally have run: "handle_put filename w =
    (Some StructError,
     w\<lparr>inbox := rest,
        trace := trace w @ OpenFile # put_rounds 0 content rs @
          [Sendto (be16 DATA @ be16 (length rs + 1)
                     @ take 512 (drop (512 * length rs) content)),
           Recvfrom (Some reply), CloseFile]\<rparr>)"
    using assms(1,6) by (simp add: handle_put_def emit_def)
  then show ?thesis
    by (simp add: printed_of_append printed_of_put_rounds)
qed

theorem upload_short_reply_raises_witness:
  "handle_put ''f''
     \<lparr>inbox = [Datagram [0, 4, 0], Datagram (be16 ACK @ be16 1)],
      local_file = Regular (replicate 600 7), trace = []\<rparr> =
   (Some StructError,
     \<lparr>inbox = [Datagram (be16 ACK @ be16 1)], local_file = Regular (replicate 600 7),
      trace = [OpenFile, Sendto (be16 DATA @ be16 1 @ replicate 512 7),
               Recvfrom (Some [0, 4, 0]), CloseFile]\<rparr>)
   \<and> printed_of (trace (snd (handle_put ''f''
     \<lparr>inbox = [Datagram [0, 4, 0], Datagram (be16 ACK @ be16 1)],
      local_file = Regular (replicate 600 7), trace = []\<rparr>))) = []"
  using upload_short_reply_raises [of
      "\<lparr>inbox = [Datagram [0, 4, 0], Datagram (be16 ACK @ be16 1)],
        local_file = Regular (replicate 600 7), trace = []\<rparr>"
      "replicate 600 7" "[]" "[0, 4, 0]" "[Datagram (be16 ACK @ be16 1)]" "''f''"]
  by simp

subsection \<open>Timeouts, and closing the socket\<close>

text \<open>
  C7. A session has gone through any number of rounds in sequence, and then nothing
  arrives within the timeout. An upload has sent its next DATA packet and waits once:
  it prints \<^verbatim>\<open>Timeout waiting for ACK\<close>, sends nothing more, closes the file and then the
  socket. A download waits once: it prints \<^verbatim>\<open>Timeout waiting for data\<close>, sends nothing
  more, closes the file and then the socket. And whatever the operation, the filename
  and the world are, \<^verbatim>\<open>main\<close> closes the socket exactly once.
\<close>

theorem timeout_ends_session:
  assumes "local_file wp = Regular content"
    and "acks_from 0 rs" and "512 * length rs \<le> length content" and "length rs < 65535"
    and "inbox wp = map Datagram rs @ rest" and "quiet rest"
    and "local_file wg \<noteq> Directory" and "full_blocks_from 0 ds"
    and "inbox wg = map Datagram ds @ rest'" and "quiet rest'"
  shows "main ''put'' filename wp =
      (None, wp\<lparr>inbox := tl rest,
                 trace := trace wp @
                   [Print (InitiatingPut filename),
                    Sendto (be16 WRQ @ pack_s (length filename + 1) (encode filename)
                              @ pack_s (length ''octet'' + 1) (encode ''octet'')),
                    OpenFile] @ put_rounds 0 content rs @
                   [Sendto (be16 DATA @ be16 (length rs + 1)
                              @ take 512 (drop (512 * length rs) content)),
                    Recvfrom None, Print TimeoutAck, CloseFile, CloseSock]\<rparr>)
    \<and> main ''get'' filename wg =
      (None, wg\<lparr>inbox := tl rest', local_file := Regular (concat (map payload ds)),
                 trace := trace wg @
                   [Print (InitiatingGet filename),
                    Sendto (be16 RRQ @ pack_s (length filename + 1) (encode filename)
                              @ pack_s (length ''octet'' + 1) (encode ''octet'')),
                    OpenFile] @ get_rounds 0 ds @
                   [Recvfrom None, Print TimeoutData, CloseFile, CloseSock]\<rparr>)
    \<and> count_list (trace (snd (main operation filename' w))) CloseSock =
        count_list (trace w) CloseSock + 1"
proof -
  let ?wp = "sendto (be16 WRQ @ pack_s (length filename + 1) (encode filename)
                @ pack_s (length ''octet'' + 1) (encode ''octet''))
               (print (InitiatingPut filename) wp)"
  let ?wg = "sendto (be16 RRQ @ pack_s (length filename + 1) (encode filename)
                @ pack_s (length ''octet'' + 1) (encode ''octet''))
               (print (InitiatingGet filename) wg)"
  have "handle_put filename ?wp =
    (None, ?wp\<lparr>inbox := tl rest,
              trace := trace ?wp @ OpenFile # put_rounds 0 content rs @
                [Sendto (be16 DATA @ be16 (length rs + 1)
                           @ take 512 (drop (512 * length rs) content)),
                 Recvfrom None, Print TimeoutAck, CloseFile]\<rparr>)"
    using assms(1-6) by (intro handle_put_timeout) (simp_all add: sendto_def print_def emit_def)
  then have put: "main ''put'' filename wp =
      (None, wp\<lparr>inbox := tl rest,
                 trace := trace wp @
                   [Print (InitiatingPut filename),
                    Sendto (be16 WRQ @ pack_s (length filename + 1) (encode filename)
                              @ pack_s (length ''octet'' + 1) (encode ''octet'')),
                    OpenFile] @ put_rounds 0 content rs @
                   [Sendto (be16 DATA @ be16 (length rs + 1)
                              @ take 512 (drop (512 * length rs) content)),
                    Recvfrom None, Print TimeoutAck, CloseFile, CloseSock]\<rparr>)"
    by (simp add: main_def build_request_ok WRQ_def close_sock_def emit_def sendto_def print_def)
  have "handle_get filename ?wg =
      (None, ?wg\<lparr>inbox := tl rest', local_file := Regular (concat (map payload ds)),
         trace := trace ?wg @ OpenFile # get_rounds 0 ds @
            [Recvfrom None, Print TimeoutData, CloseFile]\<rparr>)"
    using assms(7-10) by (intro handle_get_timeout) (simp_all add: sendto_def print_def emit_def)
  then have get: "main ''get'' filename wg =
      (None, wg\<lparr>inbox := tl rest', local_file := Regular (concat (map payload ds)),
                 trace := trace wg @
                   [Print (InitiatingGet filename),
                    Sendto (be16 RRQ @ pack_s (length filename + 1) (encode filename)
                              @ pack_s (length ''octet'' + 1) (encode ''octet'')),
                    OpenFile] @ get_rounds 0 ds @
                   [Recvfrom None, Print TimeoutData, CloseFile, CloseSock]\<rparr>)"
    by (simp add: main_def build_request_ok RRQ_def close_sock_def emit_def sendto_def print_def)
  from put get main_closes_once [of operation filename' w] show ?thesis
    by simp
qed

theorem timeout_ends_session_witness:
  "main ''put'' ''a''
     \<lparr>inbox = [Datagram (ack_reply 1)], local_file = Regular (replicate 600 7), trace = []\<rparr> =
     (None, \<lparr>inbox = [], local_file = Regular (replicate 600 7),
              trace = [Print (InitiatingPut ''a''),
                       Sendto (be16 WRQ @ [97, 0, 111, 99, 116, 101, 116, 0]),
                       OpenFile,
                       Sendto (be16 DATA @ be16 1 @ replicate 512 7),
                       Recvfrom (Some (ack_reply 1)),
                       Sendto (be16 DATA @ be16 2 @ replicate 88 7),
                       Recvfrom None, Print TimeoutAck, CloseFile, CloseSock]\<rparr>)
   \<and> main ''get'' ''a''
     \<lparr>inbox = [Datagram (full_block 1), Silence, Datagram (full_block 2)],
      local_file = Absent, trace = []\<rparr> =
     (None, \<lparr>inbox = [Datagram (full_block 2)], local_file = Regular (replicate 512 0),
              trace = [Print (InitiatingGet ''a''),
                       Sendto (be16 RRQ @ [97, 0, 111, 99, 116, 101, 116, 0]),
                       OpenFile,
                       Recvfrom (Some (full_block 1)), Write (replicate 512 0),
                       Sendto (be16 ACK @ be16 1),
                       Recvfrom None, Print TimeoutData, CloseFile, CloseSock]\<rparr>)
   \<and> count_list (trace (snd (main ''list'' ''a''
        \<lparr>inbox = [], local_file = Absent, trace = []\<rparr>))) CloseSock = 1"
  using timeout_ends_session [of
      "\<lparr>inbox = [Datagram (ack_reply 1)], local_file = Regular (replicate 600 7), trace = []\<rparr>"
      "replicate 600 7" "[ack_reply 1]" "[]"
      "\<lparr>inbox = [Datagram (full_block 1), Silence, Datagram (full_block 2)],
        local_file = Absent, trace = []\<rparr>"
      "[full_block 1]" "[Silence, Datagram (full_block 2)]" "''a''" "''list''" "''a''"
      "\<lparr>inbox = [], local_file = Absent, trace = []\<rparr>"]
  by (simp add: ack_reply_def full_block_def unpack_be16 ACK_def DATA_def payload_packet
      WRQ_def RRQ_def pack_s_def encode_def encode_char_def
      numeral_2_eq_2 [symmetric])

subsection \<open>The request packet\<close>

text \<open>
  C8. For the opcodes RRQ and WRQ and a filename and a mode of ASCII characters without
  NUL, the filename not empty, \<^verbatim>\<open>build_request\<close> returns the opcode in two bytes,
  big-endian, the filename, a NUL byte, the mode and a NUL byte, and the decoder of the
  specification reads the opcode, the filename and the mode back from these bytes.
\<close>

theorem build_request_round_trip:
  assumes "opcode = RRQ \<or> opcode = WRQ" and "filename \<noteq> []"
    and "valid_field filename" and "valid_field mode"
  shows "build_request opcode filename mode =
      Inr (be16 opcode @ map of_char filename @ [0] @ map of_char mode @ [0])
    \<and> spec_decode (be16 opcode @ map of_char filename @ [0] @ map of_char mode @ [0]) =
      Inr (Request opcode filename mode)"
proof
  from assms(1) have op: "opcode < 65536"
    by (auto simp: RRQ_def WRQ_def)
  from assms(3,4) have "\<forall>c\<in>set filename. (of_char c :: nat) < 128"
    and "\<forall>c\<in>set mode. (of_char c :: nat) < 128"
    by (simp_all add: valid_field_def)
  with op show "build_request opcode filename mode =
      Inr (be16 opcode @ map of_char filename @ [0] @ map of_char mode @ [0])"
    by (simp add: build_request_def pack_H_def pack_s_def encode_ascii)
  have u16: "u16 (be16 opcode @ xs) = opcode" for xs
    using op by (simp add: u16_def be16_def be16_unat)
  have len: "\<not> length (be16 opcode @ xs) < 2" for xs
    by simp
  show "spec_decode (be16 opcode @ map of_char filename @ [0] @ map of_char mode @ [0]) =
      Inr (Request opcode filename mode)"
    unfolding spec_decode_def using assms(1)
    by (simp add: u16 len takeWhile_field [OF assms(3)] takeWhile_field [OF assms(4)]
        ascii_string_of_char Let_def)
qed

theorem build_request_round_trip_witness:
  "build_request RRQ ''a.txt'' ''octet'' =
     Inr [0, 1, 97, 46, 116, 120, 116, 0, 111, 99, 116, 101, 116, 0]
   \<and> spec_decode [0, 1, 97, 46, 116, 120, 116, 0, 111, 99, 116, 101, 116, 0] =
     Inr (Request RRQ ''a.txt'' ''octet'')"
  using build_request_round_trip [of RRQ "''a.txt''" "''octet''"]
  by (simp add: valid_field_def be16_def RRQ_def)

subsection \<open>What a failed download leaves in the file\<close>

text \<open>
  C9. A download receives \<open>k\<close> full blocks in sequence, and the next event ends it
  without success: nothing arrives, or a datagram of fewer than four bytes, or a packet
  that is not the next DATA block. Then the file was opened before the first receive,
  whatever the path held before; each payload was written in its own round, before the
  event that ends the download; and the file that is left holds exactly the \<open>k\<close>
  payloads in order.
\<close>

theorem download_failure_keeps_blocks:
  assumes "local_file w \<noteq> Directory" and "full_blocks_from 0 ds"
    and "inbox w = map Datagram ds @ rest" and "rejected (length ds) rest"
  shows "snd (handle_get filename w) =
      w\<lparr>inbox := tl rest, local_file := Regular (concat (map payload ds)),
         trace := trace w @ OpenFile # get_rounds 0 ds @ rejection rest @ [CloseFile]\<rparr>
    \<and> writes_of (trace (snd (handle_get filename w))) = writes_of (trace w) @ map payload ds"
proof -
  have "writes_of (rejection rest) = []"
    by (cases rest rule: rejection.cases) simp_all
  then have "writes_of (OpenFile # get_rounds 0 ds @ rejection rest @ [CloseFile]) =
      map payload ds"
    by (simp add: writes_of_append writes_of_get_rounds)
  with handle_get_rejected [OF assms] show ?thesis
    by (simp add: writes_of_append)
qed

theorem download_failure_keeps_blocks_witness:
  "snd (handle_get ''a''
     \<lparr>inbox = [Datagram (full_block 1), Datagram (full_block 3), Datagram (full_block 2)],
      local_file = Regular [1, 2, 3], trace = []\<rparr>) =
     \<lparr>inbox = [Datagram (full_block 2)], local_file = Regular (replicate 512 0),
      trace = [OpenFile,
               Recvfrom (Some (full_block 1)), Write (replicate 512 0),
               Sendto (be16 ACK @ be16 1),
               Recvfrom (Some (full_block 3)), Print InvalidData, CloseFile]\<rparr>"
  using download_failure_keeps_blocks [of
      "\<lparr>inbox = [Datagram (full_block 1), Datagram (full_block 3), Datagram (full_block 2)],
        local_file = Regular [1, 2, 3], trace = []\<rparr>"
      "[full_block 1]" "[Datagram (full_block 3), Datagram (full_block 2)]" "''a''"]
  by (simp add: full_block_def unpack_be16 DATA_def payload_packet)

subsection \<open>An upload of a file that does not exist\<close>

text \<open>
  C10. When the local path does not exist, a \<^verbatim>\<open>put\<close> session announces itself, sends the
  WRQ packet, prints that the file does not exist, and closes the socket. The WRQ packet
  is the only datagram it sends, and it receives nothing.
\<close>

theorem put_missing_file:
  assumes "local_file w = Absent"
  shows "main ''put'' filename w =
    (None, w\<lparr>trace := trace w @
        [Print (InitiatingPut filename),
         Sendto (be16 WRQ @ pack_s (length filename + 1) (encode filename)
                   @ pack_s (length ''octet'' + 1) (encode ''octet'')),
         Print (FileDoesNotExist filename), CloseSock]\<rparr>)"
  using assms
  by (simp add: main_def build_request_def pack_H_def WRQ_def handle_put_def sendto_def print_def
      emit_def close_sock_def)

theorem put_missing_file_witness:
  "main ''put'' ''a'' \<lparr>inbox = [Datagram [0, 4, 0, 0]], local_file = Absent, trace = []\<rparr> =
    (None, \<lparr>inbox = [Datagram [0, 4, 0, 0]], local_file = Absent,
             trace = [Print (InitiatingPut ''a''),
                      Sendto [0, 2, 97, 0, 111, 99, 116, 101, 116, 0],
                      Print (FileDoesNotExist ''a''), CloseSock]\<rparr>)"
  using put_missing_file [of "\<lparr>inbox = [Datagram [0, 4, 0, 0]], local_file = Absent, trace = []\<rparr>" "''a''"]
  by (simp add: be16_def WRQ_def pack_s_def encode_def encode_char_def)

end
